theory Spec2Isabelle
  imports Main
begin

section \<open>Data model of filters.go\<close>

text \<open>
  The file identity is an opaque comparable value; the handler is passed through
  opaquely.  Both are plain numbers here.
\<close>

type_synonym FileId = nat
type_synonym handler = nat

text \<open>\<^verbatim>\<open>type FileName struct { BaseName string; FilePath string }\<close>\<close>

record FileName =
  BaseName :: string
  FilePath :: string

text \<open>\<^verbatim>\<open>type filter struct\<close> (the name \<open>filter\<close> is taken in HOL).\<close>

record filter_t =
  bname :: string
  loc :: string
  mtchs :: "string list"
  lh :: handler

text \<open>
  Modelled from the spec: the follower type is declared outside filters.go.  The manager
  reads its embedded \<open>FileName\<close>, its \<open>FileId()\<close>, its \<open>FilterId()\<close> and its
  \<open>state\<close> pointer, and calls \<open>Start\<close> and \<open>Close\<close> on it.  A pointer
  \<^verbatim>\<open>*int64\<close> is \<open>None\<close> for nil and \<open>Some c\<close> for the address of cell \<open>c\<close>.  The two
  counters record how often \<open>Close\<close> and \<open>Start\<close> were called on the object.
\<close>

record follower =
  fileName :: FileName
  fileId :: FileId
  filterId :: int
  state :: "nat option"
  closeCalls :: nat
  startCalls :: nat

text \<open>
  A Go function result: \<open>Ok\<close> is a nil error, \<open>Error m\<close> an error value with
  message \<open>m\<close>, and \<open>Panic m\<close> a run-time panic (index out of range, nil
  dereference, assignment to an entry of a nil map).
\<close>

datatype outcome = Ok | Error string | Panic string

text \<open>The three results of \<^verbatim>\<open>os.Stat\<close> that cleanStates tells apart.\<close>

datatype stat_result = NotExist | StatErr string | Size int

text \<open>
  One call of the \<^verbatim>\<open>filepath.Walk\<close> callback: the path, whether \<open>lerr\<close> is
  non-nil, and \<open>fi\<close> (\<open>None\<close> for nil, otherwise whether the mode is regular).
\<close>

record walk_entry =
  w_path :: string
  w_lerr :: bool
  w_fi :: "bool option"

text \<open>
  Everything filters.go calls that lives outside it: the file system, the path library,
  the follower's constructor and life cycle, and the state file's handle.  Errors are
  messages; \<open>None\<close> is a nil error.  \<open>os_IsRegular p\<close> is the mode test on the
  result of a successful \<^verbatim>\<open>os.Stat(p)\<close>; \<open>os_OpenFile p create\<close> opens \<open>p\<close> read-write,
  creating and truncating it when \<open>create\<close> is set; \<open>file_Stat\<close> gives the size of an
  open file; \<open>gob_Decode\<close> gives the entries of the snapshot in an open file.
\<close>

record env =
  getFileIdFromName :: "string \<Rightarrow> string + FileId"
  filepath_Walk :: "string \<Rightarrow> walk_entry list"
  filepath_Match :: "string \<Rightarrow> string \<Rightarrow> string + bool"
  filepath_Base :: "string \<Rightarrow> string"
  filepath_Dir :: "string \<Rightarrow> string"
  filepath_Clean :: "string \<Rightarrow> string"
  os_Stat :: "string \<Rightarrow> stat_result"
  follower_New :: "string \<Rightarrow> string \<Rightarrow> string option"
  follower_Start :: "nat \<Rightarrow> string option"
  follower_Close :: "nat \<Rightarrow> string option"
  file_Seek :: "nat \<Rightarrow> string + int"
  file_Truncate :: "nat \<Rightarrow> string option"
  gob_Encode :: "nat \<Rightarrow> string option"
  file_Close :: "nat \<Rightarrow> string option"
  ErrFailedSeek :: string
  os_IsRegular :: "string \<Rightarrow> bool"
  os_OpenFile :: "string \<Rightarrow> bool \<Rightarrow> string + nat"
  file_Stat :: "nat \<Rightarrow> string + int"
  gob_Decode :: "nat \<Rightarrow> string + (FileName \<times> int) list"
  ErrInvalidStateFile :: string

text \<open>
  \<^verbatim>\<open>type FilterManager struct\<close> together with the objects its pointers reach:
  \<open>followers\<close> is \<open>None\<close> for the nil map that \<open>Close\<close> leaves; a follower
  pointer is an address into \<open>flws\<close>, an offset cell an address into \<open>cells\<close>;
  \<open>nflw\<close> and \<open>ncell\<close> are the next addresses to allocate.  The mutex is left out:
  every operation below is one critical section.
\<close>

record FilterManager =
  filters :: "filter_t list"
  followers :: "(FileName \<rightharpoonup> nat) option"
  states :: "FileName \<rightharpoonup> nat option"
  stateFout :: "nat option"
  flws :: "nat \<Rightarrow> follower"
  nflw :: nat
  cells :: "nat \<Rightarrow> int"
  ncell :: nat

section \<open>Map and pointer primitives\<close>

text \<open>Reading a nil map finds nothing.\<close>

definition flwTable :: "FilterManager \<Rightarrow> FileName \<rightharpoonup> nat" where
  "flwTable f = (case followers f of None \<Rightarrow> Map.empty | Some m \<Rightarrow> m)"

text \<open>\<^verbatim>\<open>delete(f.followers, k)\<close>: a no-op on a nil map.\<close>

definition delete_followers :: "FilterManager \<Rightarrow> FileName \<Rightarrow> FilterManager" where
  "delete_followers f k =
     f\<lparr>followers := (case followers f of None \<Rightarrow> None | Some m \<Rightarrow> Some (m(k := None)))\<rparr>"

definition delete_states :: "FilterManager \<Rightarrow> FileName \<Rightarrow> FilterManager" where
  "delete_states f k = f\<lparr>states := (states f)(k := None)\<rparr>"

text \<open>\<^verbatim>\<open>f.followers[k] = r\<close>: panics on a nil map (\<open>None\<close> here).\<close>

definition set_followers :: "FilterManager \<Rightarrow> FileName \<Rightarrow> nat \<Rightarrow> FilterManager option" where
  "set_followers f k r =
     (case followers f of None \<Rightarrow> None | Some m \<Rightarrow> Some (f\<lparr>followers := Some (m(k \<mapsto> r))\<rparr>))"

definition set_states :: "FilterManager \<Rightarrow> FileName \<Rightarrow> nat option \<Rightarrow> FilterManager" where
  "set_states f k v = f\<lparr>states := (states f)(k \<mapsto> v)\<rparr>"

text \<open>\<^verbatim>\<open>fl.Close()\<close> on follower \<open>r\<close>: the call is counted, its error comes from outside.\<close>

definition flw_Close :: "env \<Rightarrow> nat \<Rightarrow> FilterManager \<Rightarrow> string option \<times> FilterManager" where
  "flw_Close e r f =
     (follower_Close e r,
      f\<lparr>flws := (flws f)(r := (flws f r)\<lparr>closeCalls := Suc (closeCalls (flws f r))\<rparr>)\<rparr>)"

definition flw_Start :: "env \<Rightarrow> nat \<Rightarrow> FilterManager \<Rightarrow> string option \<times> FilterManager" where
  "flw_Start e r f =
     (follower_Start e r,
      f\<lparr>flws := (flws f)(r := (flws f r)\<lparr>startCalls := Suc (startCalls (flws f r))\<rparr>)\<rparr>)"

section \<open>Close and dumpStates\<close>

text \<open>
  \<^verbatim>\<open>appendErr\<close>: \<open>nerr\<close> when \<open>err\<close> is nil, else the two printed with \<^verbatim>\<open>%v : %v\<close>
  (a nil error prints as \<^verbatim>\<open><nil>\<close>).
\<close>

definition appendErr :: "string option \<Rightarrow> string option \<Rightarrow> string option" where
  "appendErr err nerr =
     (case err of
        None \<Rightarrow> nerr
      | Some m \<Rightarrow> Some (m @ '' : '' @ (case nerr of None \<Rightarrow> ''<nil>'' | Some n \<Rightarrow> n)))"

text \<open>
  The loop of \<open>Close\<close> over \<open>fm.followers\<close>.  Go fixes no order for a map range, so
  the order is the key list \<open>ks\<close>; a key with no entry is not produced.
\<close>

fun closeFollowers ::
  "env \<Rightarrow> FileName list \<Rightarrow> string option \<Rightarrow> FilterManager \<Rightarrow> string option \<times> FilterManager" where
  "closeFollowers e [] err f = (err, f)"
| "closeFollowers e (k # ks) err f =
     (case flwTable f k of
        None \<Rightarrow> closeFollowers e ks err f
      | Some v \<Rightarrow>
          (case flw_Close e v f of
             (None, f1) \<Rightarrow> closeFollowers e ks err f1
           | (Some lerr, f1) \<Rightarrow> closeFollowers e ks (appendErr err (Some lerr)) f1))"

definition dumpStates :: "env \<Rightarrow> FilterManager \<Rightarrow> string option" where
  "dumpStates e f =
     (case stateFout f of
        None \<Rightarrow> None
      | Some h \<Rightarrow>
          (case file_Seek e h of
             Inl err \<Rightarrow> Some err
           | Inr n \<Rightarrow>
               if n \<noteq> 0 then Some (ErrFailedSeek e)
               else (case file_Truncate e h of
                       Some err \<Rightarrow> Some err
                     | None \<Rightarrow> gob_Encode e h)))"

text \<open>
  \<^verbatim>\<open>fm.stateFout.Close()\<close>: \<^verbatim>\<open>(*os.File).Close\<close> on a nil receiver returns
  \<^verbatim>\<open>os.ErrInvalid\<close>, whose message is \<^verbatim>\<open>invalid argument\<close>.
\<close>

definition stateFout_Close :: "env \<Rightarrow> nat option \<Rightarrow> string option" where
  "stateFout_Close e h = (case h of None \<Rightarrow> Some ''invalid argument'' | Some x \<Rightarrow> file_Close e x)"

definition Close :: "env \<Rightarrow> FileName list \<Rightarrow> FilterManager \<Rightarrow> string option \<times> FilterManager" where
  "Close e ks fm =
     (case closeFollowers e ks None fm of
        (err, f1) \<Rightarrow>
          (let f2 = f1\<lparr>followers := None, filters := []\<rparr> in
           case dumpStates e f2 of
             Some derr \<Rightarrow> (Some derr, f2)
           | None \<Rightarrow>
               (case stateFout_Close e (stateFout f2) of
                  Some cerr \<Rightarrow> (Some cerr, f2)
                | None \<Rightarrow> (err, f2\<lparr>stateFout := None\<rparr>))))"

section \<open>AddFilter and RemoveFollower\<close>

definition AddFilter ::
  "env \<Rightarrow> string \<Rightarrow> string \<Rightarrow> string list \<Rightarrow> handler \<Rightarrow> FilterManager \<Rightarrow> outcome \<times> FilterManager" where
  "AddFilter e bn lc ms h f =
     (Ok, f\<lparr>filters := filters f @ [\<lparr>bname = bn, loc = filepath_Clean e lc, mtchs = ms, lh = h\<rparr>]\<rparr>)"

text \<open>The loop of \<open>nolockRemoveFollower\<close> over the filters still to visit.\<close>

fun removeLoop :: "env \<Rightarrow> string \<Rightarrow> filter_t list \<Rightarrow> FilterManager \<Rightarrow> outcome \<times> FilterManager" where
  "removeLoop e fpath [] f = (Ok, f)"
| "removeLoop e fpath (v # vs) f =
     (let stid = \<lparr>BaseName = bname v, FilePath = fpath\<rparr> in
      case flwTable f stid of
        None \<Rightarrow> removeLoop e fpath vs f
      | Some fl \<Rightarrow>
          (case flw_Close e fl (delete_states (delete_followers f stid) stid) of
             (Some err, f1) \<Rightarrow> (Error err, f1)
           | (None, f1) \<Rightarrow> removeLoop e fpath vs f1))"

definition nolockRemoveFollower :: "env \<Rightarrow> string \<Rightarrow> FilterManager \<Rightarrow> outcome \<times> FilterManager" where
  "nolockRemoveFollower e fpath f = removeLoop e fpath (filters f) f"


section \<open>Matching and the identity search\<close>

text \<open>\<open>matchFile\<close>: some pattern matches without error; the loop stops at the first.\<close>

fun matchFile :: "env \<Rightarrow> string list \<Rightarrow> string \<Rightarrow> bool" where
  "matchFile e [] fname = False"
| "matchFile e (m # ms) fname =
     (if filepath_Match e m fname = Inr True then True else matchFile e ms fname)"

text \<open>
  The callback of \<open>findFileId\<close> run over the entries \<^verbatim>\<open>filepath.Walk\<close> produces, with
  the captured results \<open>p\<close> and \<open>ok\<close>; an error of the callback ends the walk.
\<close>

fun findFileId_walk ::
  "env \<Rightarrow> string list \<Rightarrow> FileId \<Rightarrow> walk_entry list \<Rightarrow> string \<Rightarrow> bool
     \<Rightarrow> string \<times> bool \<times> string option" where
  "findFileId_walk e ms i [] p ok = (p, ok, None)"
| "findFileId_walk e ms i (w # ws) p ok =
     (if w_lerr w \<or> w_fi w = None \<or> ok \<or> w_fi w = Some False
      then findFileId_walk e ms i ws p ok
      else if matchFile e ms (filepath_Base e (w_path w))
      then (case getFileIdFromName e (w_path w) of
              Inl rerr \<Rightarrow> (p, ok, Some rerr)
            | Inr lid \<Rightarrow>
                if lid = i then findFileId_walk e ms i ws (w_path w) True
                else findFileId_walk e ms i ws p ok)
      else findFileId_walk e ms i ws p ok)"

definition findFileId ::
  "env \<Rightarrow> string \<Rightarrow> string list \<Rightarrow> FileId \<Rightarrow> string \<times> bool \<times> string option" where
  "findFileId e base ms i = findFileId_walk e ms i (filepath_Walk e base) [] False"

section \<open>addFollower\<close>

text \<open>
  Modelled from the spec: the constructor \<^verbatim>\<open>NewFollower(bname, fpath, si, filterId, lh)\<close>
  of the follower type is declared outside filters.go.  It may fail; otherwise it
  returns a new object that records the key, the identity of the path at creation, the
  filter id and the offset cell, not yet started.
\<close>

definition newFollowerObject ::
  "env \<Rightarrow> string \<Rightarrow> string \<Rightarrow> nat option \<Rightarrow> int \<Rightarrow> handler \<Rightarrow> FilterManager
     \<Rightarrow> string + nat \<times> FilterManager" where
  "newFollowerObject e bn fpath si fid h f =
     (case follower_New e bn fpath of
        Some err \<Rightarrow> Inl err
      | None \<Rightarrow>
          (case getFileIdFromName e fpath of
             Inl err \<Rightarrow> Inl err
           | Inr i \<Rightarrow>
               Inr (nflw f,
                    f\<lparr>flws := (flws f)(nflw f :=
                         \<lparr>fileName = \<lparr>BaseName = bn, FilePath = fpath\<rparr>, fileId = i,
                          filterId = fid, state = si, closeCalls = 0, startCalls = 0\<rparr>),
                      nflw := Suc (nflw f)\<rparr>)))"

text \<open>The second half of \<open>addFollower\<close>: construct, start, register.\<close>

definition addFollower_create ::
  "env \<Rightarrow> string \<Rightarrow> string \<Rightarrow> nat option \<Rightarrow> int \<Rightarrow> handler \<Rightarrow> FilterManager
     \<Rightarrow> outcome \<times> FilterManager" where
  "addFollower_create e bn fpath si fid h f =
     (case newFollowerObject e bn fpath si fid h f of
        Inl err \<Rightarrow> (Error err, f)
      | Inr (fl, f1) \<Rightarrow>
          (case flw_Start e fl f1 of
             (Some err, f2) \<Rightarrow> (Error err, snd (flw_Close e fl f2))
           | (None, f2) \<Rightarrow>
               (case set_followers f2 \<lparr>BaseName = bn, FilePath = fpath\<rparr> fl of
                  None \<Rightarrow> (Panic ''assignment to entry in nil map'', f2)
                | Some f3 \<Rightarrow> (Ok, f3))))"

definition addFollower ::
  "env \<Rightarrow> string \<Rightarrow> string \<Rightarrow> nat option \<Rightarrow> int \<Rightarrow> handler \<Rightarrow> FilterManager
     \<Rightarrow> outcome \<times> FilterManager" where
  "addFollower e bn fpath si fid h f =
     (let stid = \<lparr>BaseName = bn, FilePath = fpath\<rparr> in
      case getFileIdFromName e fpath of
        Inl err \<Rightarrow> (Error err, f)
      | Inr i \<Rightarrow>
          (case flwTable f stid of
             None \<Rightarrow> addFollower_create e bn fpath si fid h f
           | Some flw \<Rightarrow>
               if fileId (flws f flw) \<noteq> i
               then (case flw_Close e flw (delete_states (delete_followers f stid) stid) of
                       (Some err, f1) \<Rightarrow> (Error err, f1)
                     | (None, f1) \<Rightarrow> addFollower_create e bn fpath si fid h f1)
               else (Error ''duplicate follower'', f)))"

section \<open>checkRename and launchFollowers\<close>

text \<open>
  \<open>seekInfo\<close> ranges over the state map for the key with both fields equal; a key has
  no other field, so this is the lookup of that key (nil when absent).
\<close>

definition seekInfo :: "FilterManager \<Rightarrow> string \<Rightarrow> string \<Rightarrow> nat option" where
  "seekInfo f bn fpath =
     (case states f \<lparr>BaseName = bn, FilePath = fpath\<rparr> of None \<Rightarrow> None | Some v \<Rightarrow> v)"

text \<open>\<open>addSeekInfo\<close>: \<^verbatim>\<open>new(int64)\<close> is a fresh cell holding 0.\<close>

definition addSeekInfo :: "FilterManager \<Rightarrow> string \<Rightarrow> string \<Rightarrow> nat option \<times> FilterManager" where
  "addSeekInfo f bn fpath =
     (Some (ncell f),
      (set_states f \<lparr>BaseName = bn, FilePath = fpath\<rparr> (Some (ncell f)))
        \<lparr>cells := (cells f)(ncell f := 0), ncell := Suc (ncell f)\<rparr>)"

text \<open>The block \<^verbatim>\<open>if removeFollower { ... }\<close> at the end of the loop body of checkRename.\<close>

definition checkRename_remove ::
  "env \<Rightarrow> FileName \<Rightarrow> nat \<Rightarrow> bool \<Rightarrow> bool \<Rightarrow> FilterManager \<Rightarrow> bool \<times> outcome \<times> FilterManager" where
  "checkRename_remove e k v removeFollower isRename f =
     (if removeFollower
      then (case flw_Close e v f of
              (Some err, f1) \<Rightarrow> (isRename, Error err, f1)
            | (None, f1) \<Rightarrow> (isRename, Ok, delete_followers (delete_states f1 k) k))
      else (isRename, Ok, f))"

text \<open>
  The loop body of checkRename for the entry \<open>(k, v)\<close>.  The range check only sets
  \<open>removeFollower\<close>; the statement after it indexes \<open>f.filters\<close> whatever the check
  found, and Go panics there when the index is out of range.
\<close>

definition checkRename_step ::
  "env \<Rightarrow> string \<Rightarrow> FileId \<Rightarrow> FileName \<Rightarrow> nat \<Rightarrow> bool \<Rightarrow> FilterManager
     \<Rightarrow> bool \<times> outcome \<times> FilterManager" where
  "checkRename_step e fpath i k v isRename f =
     (if fileId (flws f v) = i
      then
        (let fname = filepath_Base e fpath;
             fdir = filepath_Dir e fpath;
             fltId = filterId (flws f v);
             removeFollower = (int (length (filters f)) \<le> fltId \<or> fltId < 0)
         in
           if fltId < 0 \<or> int (length (filters f)) \<le> fltId
           then (isRename, Panic ''index out of range'', f)
           else if loc (filters f ! nat fltId) \<noteq> fdir
                   \<or> \<not> matchFile e (mtchs (filters f ! nat fltId)) fname
           then
             (let f1 = delete_followers (delete_states f k) k;
                  k' = k\<lparr>FilePath := fpath\<rparr>;
                  f2 = f1\<lparr>flws := (flws f1)(v :=
                         (flws f1 v)\<lparr>fileName := (fileName (flws f1 v))\<lparr>FilePath := fpath\<rparr>\<rparr>)\<rparr>;
                  f3 = set_states f2 k' (state (flws f2 v))
              in case set_followers f3 k' v of
                   None \<Rightarrow> (isRename, Panic ''assignment to entry in nil map'', f3)
                 | Some f4 \<Rightarrow> checkRename_remove e k' v removeFollower True f4)
           else checkRename_remove e k v True isRename f)
      else (isRename, Ok, f))"

text \<open>
  The range over \<open>f.followers\<close> in the order \<open>ks\<close>; a key deleted before it is reached
  is not produced, a key inserted on the way is produced when \<open>ks\<close> lists it later.
\<close>

fun checkRename_loop ::
  "env \<Rightarrow> string \<Rightarrow> FileId \<Rightarrow> FileName list \<Rightarrow> bool \<Rightarrow> FilterManager
     \<Rightarrow> bool \<times> outcome \<times> FilterManager" where
  "checkRename_loop e fpath i [] isRename f = (isRename, Ok, f)"
| "checkRename_loop e fpath i (k # ks) isRename f =
     (case flwTable f k of
        None \<Rightarrow> checkRename_loop e fpath i ks isRename f
      | Some v \<Rightarrow>
          (case checkRename_step e fpath i k v isRename f of
             (r, Ok, f1) \<Rightarrow> checkRename_loop e fpath i ks r f1
           | (r, err, f1) \<Rightarrow> (r, err, f1)))"

definition checkRename ::
  "env \<Rightarrow> FileName list \<Rightarrow> string \<Rightarrow> FileId \<Rightarrow> FilterManager \<Rightarrow> bool \<times> outcome \<times> FilterManager" where
  "checkRename e ks fpath i f = checkRename_loop e fpath i ks False f"

text \<open>The loop of launchFollowers over the filters from index \<open>i\<close> on.\<close>

fun launchLoop ::
  "env \<Rightarrow> string \<Rightarrow> bool \<Rightarrow> string \<Rightarrow> string \<Rightarrow> int \<Rightarrow> filter_t list \<Rightarrow> FilterManager
     \<Rightarrow> outcome \<times> FilterManager" where
  "launchLoop e fpath deleteState fname fdir i [] f = (Ok, f)"
| "launchLoop e fpath deleteState fname fdir i (v # vs) f =
     (if loc v \<noteq> fdir \<or> \<not> matchFile e (mtchs v) fname
      then launchLoop e fpath deleteState fname fdir (i + 1) vs f
      else
        (let si0 = (if \<not> deleteState then seekInfo f (bname v) fpath else None) in
         case (if si0 = None then addSeekInfo f (bname v) fpath else (si0, f)) of
           (si, f1) \<Rightarrow>
             (case addFollower e (bname v) fpath si i (lh v) f1 of
                (Ok, f2) \<Rightarrow> launchLoop e fpath deleteState fname fdir (i + 1) vs f2
              | (err, f2) \<Rightarrow> (err, f2))))"

definition launchFollowers ::
  "env \<Rightarrow> FileName list \<Rightarrow> string \<Rightarrow> bool \<Rightarrow> FilterManager \<Rightarrow> outcome \<times> FilterManager" where
  "launchFollowers e ks fpath deleteState f =
     (case getFileIdFromName e fpath of
        Inl err \<Rightarrow> (Error err, f)
      | Inr i \<Rightarrow>
          (case checkRename e ks fpath i f of
             (isRename, Ok, f1) \<Rightarrow>
               if isRename then (Ok, f1)
               else launchLoop e fpath deleteState (filepath_Base e fpath) (filepath_Dir e fpath)
                      0 (filters f1) f1
           | (isRename, err, f1) \<Rightarrow> (err, f1)))"

definition NewFollower ::
  "env \<Rightarrow> FileName list \<Rightarrow> string \<Rightarrow> FilterManager \<Rightarrow> outcome \<times> FilterManager" where
  "NewFollower e ks fpath f = launchFollowers e ks fpath True f"

definition LoadFile ::
  "env \<Rightarrow> FileName list \<Rightarrow> string \<Rightarrow> FilterManager \<Rightarrow> outcome \<times> FilterManager" where
  "LoadFile e ks fpath f = launchFollowers e ks fpath False f"

section \<open>RenameFollower\<close>

text \<open>
  The first loop of RenameFollower: the identity of the last follower, in the order
  \<open>ks\<close> of the range, whose recorded path is \<open>fpath\<close>, and whether there was one.
\<close>

fun findId :: "FilterManager \<Rightarrow> string \<Rightarrow> FileName list \<Rightarrow> FileId \<Rightarrow> bool \<Rightarrow> FileId \<times> bool" where
  "findId f fpath [] i hit = (i, hit)"
| "findId f fpath (k # ks) i hit =
     (case flwTable f k of
        None \<Rightarrow> findId f fpath ks i hit
      | Some flw \<Rightarrow>
          if FilePath (fileName (flws f flw)) = fpath
          then findId f fpath ks (fileId (flws f flw)) True
          else findId f fpath ks i hit)"

text \<open>The branch \<^verbatim>\<open>flw.FilterId() != i\<close>: the file is found under another filter.\<close>

definition rename_migrate ::
  "env \<Rightarrow> filter_t \<Rightarrow> int \<Rightarrow> nat \<Rightarrow> FileName \<Rightarrow> string \<Rightarrow> FilterManager \<Rightarrow> outcome \<times> FilterManager" where
  "rename_migrate e v i flw stid p f =
     (case states f stid of
        None \<Rightarrow> (Error ''Failed to find old state'', delete_followers (snd (flw_Close e flw f)) stid)
      | Some st \<Rightarrow>
          (case flw_Close e flw (delete_states (delete_followers f stid) stid) of
             (Some err, f1) \<Rightarrow> (Error err, f1)
           | (None, f1) \<Rightarrow>
               (case st of
                  None \<Rightarrow> (Panic ''nil pointer dereference'', f1)
                | Some c \<Rightarrow> addFollower e (bname v) p st i (lh v) (f1\<lparr>cells := (cells f1)(c := 0)\<rparr>))))"

text \<open>
  The else branch (\<^verbatim>\<open>//just update the names\<close>): the follower leaves the table, its
  \<open>FileName\<close> is set to \<open>stid\<close> while \<open>stid\<close> still holds the old path, and the cell
  and the follower are stored under the key with the new path.
\<close>

definition rename_rekey ::
  "env \<Rightarrow> nat \<Rightarrow> FileName \<Rightarrow> string \<Rightarrow> FilterManager \<Rightarrow> outcome \<times> FilterManager" where
  "rename_rekey e flw stid p f =
     (let f1 = delete_followers f stid;
          f2 = f1\<lparr>flws := (flws f1)(flw := (flws f1 flw)\<lparr>fileName := stid\<rparr>)\<rparr>
      in case states f2 stid of
           None \<Rightarrow> (Error ''failed to find state on rename'', snd (flw_Close e flw f2))
         | Some st \<Rightarrow>
             (let stid' = stid\<lparr>FilePath := p\<rparr>;
                  f3 = set_states f2 stid' st
              in case set_followers f3 stid' flw of
                   None \<Rightarrow> (Panic ''assignment to entry in nil map'', f3)
                 | Some f4 \<Rightarrow> (Ok, f4)))"

text \<open>
  The loop over the filters from index \<open>i\<close> on, for the identity \<open>fid\<close>; when it runs
  out, the follower is removed.
\<close>

fun renameLoop ::
  "env \<Rightarrow> string \<Rightarrow> FileId \<Rightarrow> int \<Rightarrow> filter_t list \<Rightarrow> FilterManager \<Rightarrow> outcome \<times> FilterManager" where
  "renameLoop e fpath fid i [] f = nolockRemoveFollower e fpath f"
| "renameLoop e fpath fid i (v # vs) f =
     (let stid = \<lparr>BaseName = bname v, FilePath = fpath\<rparr> in
      case flwTable f stid of
        None \<Rightarrow> renameLoop e fpath fid (i + 1) vs f
      | Some flw \<Rightarrow>
          (case findFileId e (loc v) (mtchs v) fid of
             (p, ok, Some err) \<Rightarrow>
               (Error err, delete_followers (delete_states (snd (flw_Close e flw f)) stid) stid)
           | (p, ok, None) \<Rightarrow>
               if ok
               then (if p = fpath then (Ok, f)
                     else if filterId (flws f flw) \<noteq> i then rename_migrate e v i flw stid p f
                     else rename_rekey e flw stid p f)
               else renameLoop e fpath fid (i + 1) vs f))"

definition RenameFollower ::
  "env \<Rightarrow> FileName list \<Rightarrow> string \<Rightarrow> FilterManager \<Rightarrow> outcome \<times> FilterManager" where
  "RenameFollower e ks fpath f =
     (case findId f fpath ks 0 False of
        (fid, hit) \<Rightarrow> if \<not> hit then (Ok, f) else renameLoop e fpath fid 0 (filters f) f)"

section \<open>cleanStates\<close>

text \<open>
  cleanStates works on the loaded map and its cells before the manager exists.  The
  range runs in the order \<open>ks\<close>; the only entry deleted on the way is the current one.
\<close>

fun cleanStates ::
  "env \<Rightarrow> FileName list \<Rightarrow> (FileName \<rightharpoonup> nat option) \<Rightarrow> (nat \<Rightarrow> int)
     \<Rightarrow> outcome \<times> (FileName \<rightharpoonup> nat option) \<times> (nat \<Rightarrow> int)" where
  "cleanStates e [] st cs = (Ok, st, cs)"
| "cleanStates e (k # ks) st cs =
     (case st k of
        None \<Rightarrow> cleanStates e ks st cs
      | Some v \<Rightarrow>
          (case os_Stat e (FilePath k) of
             NotExist \<Rightarrow> cleanStates e ks (st(k := None)) cs
           | StatErr err \<Rightarrow> (Error err, st, cs)
           | Size n \<Rightarrow>
               (case v of
                  None \<Rightarrow> cleanStates e ks st cs
                | Some c \<Rightarrow>
                    if n < cs c then cleanStates e ks st (cs(c := 0))
                    else cleanStates e ks st cs)))"

section \<open>initStateFile and NewFilterManager\<close>

text \<open>
  Decoding a snapshot into the state map: every decoded value is allocated anew, so
  each entry gets the next free cell, holding its offset.
\<close>

fun loadEntries ::
  "(FileName \<times> int) list \<Rightarrow> (FileName \<rightharpoonup> nat option) \<Rightarrow> (nat \<Rightarrow> int) \<Rightarrow> nat
     \<Rightarrow> (FileName \<rightharpoonup> nat option) \<times> (nat \<Rightarrow> int) \<times> nat" where
  "loadEntries [] st cs n = (st, cs, n)"
| "loadEntries ((k, off) # es) st cs n = loadEntries es (st(k \<mapsto> Some n)) (cs(n := off)) (Suc n)"

text \<open>
  \<open>initStateFile\<close> returns the handle, the state map with its cells (and the next free
  cell), and the error.  The format \<^verbatim>\<open>%v\<close> appends the cause to the message.
\<close>

definition initStateFile ::
  "env \<Rightarrow> string
     \<Rightarrow> nat option \<times> (FileName \<rightharpoonup> nat option) \<times> (nat \<Rightarrow> int) \<times> nat \<times> string option" where
  "initStateFile e p =
     (case os_Stat e p of
        StatErr err \<Rightarrow> (None, Map.empty, (\<lambda>c. 0), 0, Some ''state file path is invalid'')
      | NotExist \<Rightarrow>
          (case os_OpenFile e p True of
             Inl err \<Rightarrow> (None, Map.empty, (\<lambda>c. 0), 0, Some err)
           | Inr h \<Rightarrow> (Some h, Map.empty, (\<lambda>c. 0), 0, None))
      | Size sz \<Rightarrow>
          if \<not> os_IsRegular e p
          then (None, Map.empty, (\<lambda>c. 0), 0, Some (ErrInvalidStateFile e))
          else
            (case os_OpenFile e p False of
               Inl err \<Rightarrow>
                 (None, Map.empty, (\<lambda>c. 0), 0, Some (''Failed to open state file RW: '' @ err))
             | Inr h \<Rightarrow>
                 (case file_Stat e h of
                    Inl err \<Rightarrow>
                      (Some h, Map.empty, (\<lambda>c. 0), 0, Some (''Failed to stat open file: '' @ err))
                  | Inr n \<Rightarrow>
                      if 0 < n
                      then (case gob_Decode e h of
                              Inl err \<Rightarrow>
                                (Some h, Map.empty, (\<lambda>c. 0), 0,
                                 Some (''Failed to load existing states: '' @ err))
                            | Inr es \<Rightarrow>
                                (case loadEntries es Map.empty (\<lambda>c. 0) 0 of
                                   (st, cs, nc) \<Rightarrow> (Some h, st, cs, nc, None)))
                      else (Some h, Map.empty, (\<lambda>c. 0), 0, None))))"

text \<open>A follower object for the addresses of a new manager's heap that hold none yet.\<close>

definition noFollower :: follower where
  "noFollower =
     \<lparr>fileName = \<lparr>BaseName = [], FilePath = []\<rparr>, fileId = 0, filterId = 0, state = None,
      closeCalls = 0, startCalls = 0\<rparr>"

text \<open>
  \<open>NewFilterManager\<close> returns the manager, or nil (\<open>None\<close>) with the error; \<open>ks\<close> is
  the order of the range in cleanStates.
\<close>

definition NewFilterManager ::
  "env \<Rightarrow> FileName list \<Rightarrow> string \<Rightarrow> outcome \<times> FilterManager option" where
  "NewFilterManager e ks stateFile =
     (case initStateFile e stateFile of
        (fout, st, cs, nc, Some err) \<Rightarrow> (Error err, None)
      | (fout, st, cs, nc, None) \<Rightarrow>
          (case cleanStates e ks st cs of
             (Ok, st', cs') \<Rightarrow>
               (Ok, Some \<lparr>filters = [], followers = Some Map.empty, states = st',
                          stateFout = fout, flws = (\<lambda>r. noFollower), nflw = 0,
                          cells = cs', ncell = nc\<rparr>)
           | (err, st', cs') \<Rightarrow> (err, None)))"

section \<open>A concrete scene\<close>

text \<open>
  One filter \<open>f\<close> watches \<^verbatim>\<open>/logs\<close> for \<^verbatim>\<open>*.log\<close>.  The file \<^verbatim>\<open>/logs/a.log\<close>
  (identity 1) is followed at offset 4096; it has since been renamed to
  \<^verbatim>\<open>/logs/b.log\<close>, and a new \<^verbatim>\<open>/logs/a.log\<close> (identity 2) has appeared.  The path
  functions below stand for \<^verbatim>\<open>filepath.Base\<close>, \<^verbatim>\<open>filepath.Dir\<close> and
  \<^verbatim>\<open>filepath.Match\<close> on the paths and the patterns of the scene.  The state file
  \<^verbatim>\<open>/var/state\<close> holds a snapshot with the offset 4096 for \<^verbatim>\<open>/logs/a.log\<close> (now 100
  bytes long), for \<^verbatim>\<open>/logs/b.log\<close> (5000 bytes) and for \<^verbatim>\<open>/logs/gone.log\<close> (deleted).
\<close>

definition base0 :: "string \<Rightarrow> string" where
  "base0 p = rev (takeWhile (\<lambda>c. c \<noteq> CHR ''/'') (rev p))"

definition dir0 :: "string \<Rightarrow> string" where
  "dir0 p = rev (drop 1 (dropWhile (\<lambda>c. c \<noteq> CHR ''/'') (rev p)))"

definition match0 :: "string \<Rightarrow> string \<Rightarrow> string + bool" where
  "match0 m n =
     (if m = ''*.log'' then Inr (drop (length n - 4) n = ''.log'')
      else if m = ''*.txt'' then Inr (drop (length n - 4) n = ''.txt'')
      else Inr (m = n))"

definition key_a :: FileName where
  "key_a = \<lparr>BaseName = ''f'', FilePath = ''/logs/a.log''\<rparr>"

definition key_b :: FileName where
  "key_b = \<lparr>BaseName = ''f'', FilePath = ''/logs/b.log''\<rparr>"

definition key_gone :: FileName where
  "key_gone = \<lparr>BaseName = ''f'', FilePath = ''/logs/gone.log''\<rparr>"

definition env0 :: env where
  "env0 =
     \<lparr>getFileIdFromName =
        (\<lambda>p. if p = ''/logs/a.log'' then Inr 2
              else if p = ''/logs/b.log'' then Inr 1
              else if p = ''/tmp/b.txt'' then Inr 1
              else Inl ''no such file''),
      filepath_Walk =
        (\<lambda>d. if d = ''/logs''
              then [\<lparr>w_path = ''/logs'', w_lerr = False, w_fi = Some False\<rparr>,
                    \<lparr>w_path = ''/logs/a.log'', w_lerr = False, w_fi = Some True\<rparr>,
                    \<lparr>w_path = ''/logs/b.log'', w_lerr = False, w_fi = Some True\<rparr>]
              else []),
      filepath_Match = match0,
      filepath_Base = base0,
      filepath_Dir = dir0,
      filepath_Clean = (\<lambda>p. p),
      os_Stat = (\<lambda>p. if p = ''/logs/a.log'' then Size 100
                      else if p = ''/logs/b.log'' then Size 5000
                      else if p = ''/var/state'' then Size 64
                      else NotExist),
      follower_New = (\<lambda>b p. None),
      follower_Start = (\<lambda>r. None),
      follower_Close = (\<lambda>r. None),
      file_Seek = (\<lambda>h. Inr 0),
      file_Truncate = (\<lambda>h. None),
      gob_Encode = (\<lambda>h. None),
      file_Close = (\<lambda>h. None),
      ErrFailedSeek = ''failed to seek'',
      os_IsRegular = (\<lambda>p. True),
      os_OpenFile = (\<lambda>p create. Inr 7),
      file_Stat = (\<lambda>h. Inr 64),
      gob_Decode = (\<lambda>h. Inr [(key_a, 4096), (key_b, 4096), (key_gone, 4096)]),
      ErrInvalidStateFile = ''invalid state file''\<rparr>"

definition flw0 :: follower where
  "flw0 = \<lparr>fileName = key_a, fileId = 1, filterId = 0, state = Some 0,
           closeCalls = 0, startCalls = 1\<rparr>"

definition fm0 :: FilterManager where
  "fm0 =
     \<lparr>filters = [\<lparr>bname = ''f'', loc = ''/logs'', mtchs = [''*.log''], lh = 0\<rparr>],
      followers = Some [key_a \<mapsto> 0],
      states = [key_a \<mapsto> Some 0],
      stateFout = Some 7,
      flws = (\<lambda>r. flw0),
      nflw = 1,
      cells = (\<lambda>c. 4096),
      ncell = 1\<rparr>"

text \<open>
  A second scene: the filters \<open>f\<close> and \<open>g\<close> both watch \<^verbatim>\<open>/logs\<close> for \<^verbatim>\<open>*.log\<close>, and
  \<^verbatim>\<open>/logs/a.log\<close> is followed under each of them, by follower 0 and follower 1.
\<close>

definition key_ga :: FileName where
  "key_ga = \<lparr>BaseName = ''g'', FilePath = ''/logs/a.log''\<rparr>"

definition fm2 :: FilterManager where
  "fm2 =
     \<lparr>filters = [\<lparr>bname = ''f'', loc = ''/logs'', mtchs = [''*.log''], lh = 0\<rparr>,
                 \<lparr>bname = ''g'', loc = ''/logs'', mtchs = [''*.log''], lh = 0\<rparr>],
      followers = Some [key_a \<mapsto> 0, key_ga \<mapsto> 1],
      states = [key_a \<mapsto> Some 0, key_ga \<mapsto> Some 1],
      stateFout = Some 7,
      flws = (\<lambda>r. if r = 0 then flw0
                   else flw0\<lparr>fileName := key_ga, filterId := 1, state := Some 1\<rparr>),
      nflw = 2,
      cells = (\<lambda>c. 4096),
      ncell = 2\<rparr>"

text \<open>The same world with failing collaborators: every follower's Close, and the seek.\<close>

definition env_closefail :: env where
  "env_closefail =
     env0\<lparr>follower_Close := (\<lambda>r. if r = 0 then Some ''close 0 failed''
                                  else Some ''close 1 failed'')\<rparr>"

definition env_seekfail :: env where
  "env_seekfail = env_closefail\<lparr>file_Seek := (\<lambda>h. Inl ''seek failed'')\<rparr>"



section \<open>Notions of the specification\<close>

text \<open>
  The combined error of a bulk teardown: the messages of the closes that fail, in the
  order of the range, joined by \<^verbatim>\<open> : \<close>; no error when none fails.
\<close>

fun closeErrs :: "env \<Rightarrow> (FileName \<rightharpoonup> nat) \<Rightarrow> FileName list \<Rightarrow> string list" where
  "closeErrs e m [] = []"
| "closeErrs e m (k # ks) =
     (case m k of
        None \<Rightarrow> closeErrs e m ks
      | Some r \<Rightarrow>
          (case follower_Close e r of
             None \<Rightarrow> closeErrs e m ks
           | Some msg \<Rightarrow> msg # closeErrs e m ks))"

definition withSep :: "string \<Rightarrow> string" where
  "withSep y = '' : '' @ y"

fun joinErrs :: "string list \<Rightarrow> string option" where
  "joinErrs [] = None"
| "joinErrs (x # xs) = Some (x @ concat (map withSep xs))"

text \<open>
  A loaded state map gives every key a cell of its own: decoding a snapshot allocates
  each value anew.
\<close>

definition cellsDistinct :: "(FileName \<rightharpoonup> nat option) \<Rightarrow> bool" where
  "cellsDistinct st = (\<forall>k1 k2 c. st k1 = Some (Some c) \<and> st k2 = Some (Some c) \<longrightarrow> k1 = k2)"

section \<open>Evaluation lemmas\<close>

lemmas prims =
  Let_def flwTable_def delete_followers_def delete_states_def set_followers_def
  set_states_def flw_Close_def flw_Start_def

lemmas scene = fm0_def env0_def key_a_def key_b_def flw0_def base0_def dir0_def match0_def

lemmas scene2 = key_ga_def fm2_def env_closefail_def

section \<open>Rename detection\<close>

text \<open>
  C1 (checkRename: a follower whose identity equals the notified path's is rekeyed and
  reported as a rename when the path still satisfies its filter, and is closed and
  removed otherwise).  The code tests the opposite condition.  In the scene the
  notified path \<^verbatim>\<open>/logs/b.log\<close> lies in the watch directory and matches \<^verbatim>\<open>*.log\<close>,
  yet the follower is closed, it and its cell leave their tables and the call reports
  no rename; the path \<^verbatim>\<open>/tmp/b.txt\<close> lies outside the watch directory, yet the
  follower and its cell are moved to the new key, nothing is closed and the call
  reports a rename.
\<close>

theorem checkRename_matching_path_removes:
  "filepath_Dir env0 ''/logs/b.log'' = loc (filters fm0 ! 0)
   \<and> matchFile env0 (mtchs (filters fm0 ! 0)) (filepath_Base env0 ''/logs/b.log'')
   \<and> (case checkRename env0 [key_a] ''/logs/b.log'' 1 fm0 of
        (isRename, err, f) \<Rightarrow>
          isRename = False \<and> err = Ok \<and> flwTable f key_a = None \<and> flwTable f key_b = None
          \<and> states f key_a = None \<and> states f key_b = None
          \<and> closeCalls (flws f 0) = Suc (closeCalls (flws fm0 0)))
   \<and> filepath_Dir env0 ''/tmp/b.txt'' \<noteq> loc (filters fm0 ! 0)
   \<and> (case checkRename env0 [key_a] ''/tmp/b.txt'' 1 fm0 of
        (isRename, err, f) \<Rightarrow>
          isRename = True \<and> err = Ok
          \<and> flwTable f \<lparr>BaseName = ''f'', FilePath = ''/tmp/b.txt''\<rparr> = Some 0
          \<and> states f \<lparr>BaseName = ''f'', FilePath = ''/tmp/b.txt''\<rparr> = Some (Some 0)
          \<and> closeCalls (flws f 0) = closeCalls (flws fm0 0))"
  by (simp add: checkRename_def checkRename_step_def checkRename_remove_def prims scene)

theorem checkRename_matching_path_removes_witness:
  "fst (checkRename env0 [key_a] ''/logs/b.log'' 1 fm0) = False
   \<and> fst (checkRename env0 [key_a] ''/tmp/b.txt'' 1 fm0) = True"
  using checkRename_matching_path_removes by (simp add: case_prod_unfold)



section \<open>Explicit rename\<close>

text \<open>
  C3 (RenameFollower: found under the same filter at another path, the follower and its
  cell are rekeyed, the old key is absent from both tables, the offset is unchanged and
  the follower, not closed, records the new path).  In the scene the identity search
  finds \<^verbatim>\<open>/logs/b.log\<close>; afterwards the follower is registered under the new key
  only, its offset is unchanged and it was not closed, but the state map still holds
  the old key beside the new one, and the follower still records the old path.
\<close>

theorem RenameFollower_rekey_keeps_old_state:
  "findFileId env0 ''/logs'' [''*.log''] 1 = (''/logs/b.log'', True, None)
   \<and> (case RenameFollower env0 [key_a] ''/logs/a.log'' fm0 of
        (err, f) \<Rightarrow>
          err = Ok \<and> flwTable f key_a = None \<and> flwTable f key_b = Some 0
          \<and> states f key_b = Some (Some 0) \<and> states f key_a = Some (Some 0)
          \<and> FilePath (fileName (flws f 0)) = ''/logs/a.log''
          \<and> cells f 0 = 4096 \<and> closeCalls (flws f 0) = 0)"
  by (simp add: RenameFollower_def findFileId_def rename_rekey_def rename_migrate_def prims scene)

theorem RenameFollower_rekey_keeps_old_state_witness:
  "states (snd (RenameFollower env0 [key_a] ''/logs/a.log'' fm0)) key_a = Some (Some 0)
   \<and> FilePath (fileName (flws (snd (RenameFollower env0 [key_a] ''/logs/a.log'' fm0)) 0))
       = ''/logs/a.log''"
  using RenameFollower_rekey_keeps_old_state by (simp add: case_prod_unfold)

section \<open>Shutdown\<close>

text \<open>
  C4 (a second Close returns no error and does not close the released store handle).
  The first Close of the scene succeeds and sets the handle to nil.  The second passes
  dumpStates, which returns early on the nil handle, and then calls Close on that nil
  handle, which fails: the second Close returns the error \<^verbatim>\<open>invalid argument\<close>.
\<close>

theorem Close_twice_fails:
  "(case Close env0 [key_a] fm0 of
      (err1, f1) \<Rightarrow>
        err1 = None \<and> stateFout f1 = None
        \<and> fst (Close env0 [] f1) = Some ''invalid argument'')"
  by (simp add: Close_def dumpStates_def stateFout_Close_def prims scene)

theorem Close_twice_fails_witness:
  "fst (Close env0 [] (snd (Close env0 [key_a] fm0))) = Some ''invalid argument''"
  using Close_twice_fails by (simp add: case_prod_unfold)

section \<open>Pairing of followers and offset cells\<close>

text \<open>
  C10 (every public operation keeps each key of the follower table in the state map,
  with the cell its follower references).  In the scene the pairing holds and the path
  \<^verbatim>\<open>/logs/a.log\<close> now has another identity than the follower registered for it.
  NewFollower adds a fresh cell to the state map and calls addFollower, which removes
  the stale follower and, with it, the state entry of the key, the fresh cell; the new
  follower is then registered under a key that the state map does not hold.
\<close>

theorem NewFollower_unpairs:
  "flwTable fm0 key_a = Some 0 \<and> states fm0 key_a = Some (state (flws fm0 0))
   \<and> (case NewFollower env0 [key_a] ''/logs/a.log'' fm0 of
        (err, f) \<Rightarrow>
          err = Ok \<and> flwTable f key_a = Some 1 \<and> state (flws f 1) = Some 1
          \<and> states f key_a = None)"
  by (simp add: NewFollower_def launchFollowers_def checkRename_def checkRename_step_def
      checkRename_remove_def addFollower_def addFollower_create_def newFollowerObject_def
      addSeekInfo_def seekInfo_def prims scene)

theorem NewFollower_unpairs_witness:
  "states (snd (NewFollower env0 [key_a] ''/logs/a.log'' fm0)) key_a = None
   \<and> flwTable (snd (NewFollower env0 [key_a] ''/logs/a.log'' fm0)) key_a = Some 1"
  using NewFollower_unpairs by (simp add: case_prod_unfold)

section \<open>Facts about the primitives\<close>


section \<open>Follower creation\<close>







section \<open>Removal\<close>









section \<open>Bulk teardown\<close>

text \<open>The loop of Close changes nothing but the follower objects.\<close>

lemma closeFollowers_frame:
  "closeFollowers e ks err f = (err', f') \<Longrightarrow>
     followers f' = followers f \<and> stateFout f' = stateFout f \<and> states f' = states f
     \<and> cells f' = cells f"
proof (induction ks arbitrary: err f)
  case Nil
  then show ?case by simp
next
  case (Cons k ks)
  show ?case
  proof (cases "flwTable f k")
    case None
    with Cons show ?thesis by simp
  next
    case (Some v)
    obtain lerr f1 where c: "flw_Close e v f = (lerr, f1)" by (cases "flw_Close e v f")
    then have f1: "followers f1 = followers f \<and> stateFout f1 = stateFout f
        \<and> states f1 = states f \<and> cells f1 = cells f"
      by (auto simp: flw_Close_def)
    from Some c Cons.prems obtain err1 where "closeFollowers e ks err1 f1 = (err', f')"
      by (cases lerr) auto
    from Cons.IH[OF this] f1 show ?thesis by simp
  qed
qed

text \<open>Every key of the range adds one Close call to its follower.\<close>

lemma closeFollowers_calls:
  "closeFollowers e ks err f = (err', f') \<Longrightarrow>
     closeCalls (flws f' r) =
       closeCalls (flws f r) + length (filter (\<lambda>k. flwTable f k = Some r) ks)"
proof (induction ks arbitrary: err f)
  case Nil
  then show ?case by simp
next
  case (Cons k ks)
  show ?case
  proof (cases "flwTable f k")
    case None
    with Cons show ?thesis by simp
  next
    case (Some v)
    obtain lerr f1 where c: "flw_Close e v f = (lerr, f1)" by (cases "flw_Close e v f")
    then have f1: "flwTable f1 = flwTable f"
      and cc: "closeCalls (flws f1 r) =
                 (if r = v then Suc (closeCalls (flws f r)) else closeCalls (flws f r))"
      by (auto simp: flw_Close_def flwTable_def)
    from Some c Cons.prems obtain err1 where "closeFollowers e ks err1 f1 = (err', f')"
      by (cases lerr) auto
    from Cons.IH[OF this] f1 cc Some show ?thesis by auto
  qed
qed

lemma appendErr_Some: "appendErr (Some a) (Some x) = Some (a @ withSep x)"
  by (simp add: appendErr_def withSep_def)

lemma closeFollowers_err_Some:
  "closeFollowers e ks (Some a) f = (err', f') \<Longrightarrow>
     err' = Some (a @ concat (map withSep (closeErrs e (flwTable f) ks)))"
proof (induction ks arbitrary: a f)
  case Nil
  then show ?case by simp
next
  case (Cons k ks)
  show ?case
  proof (cases "flwTable f k")
    case None
    with Cons show ?thesis by simp
  next
    case (Some v)
    obtain lerr f1 where c: "flw_Close e v f = (lerr, f1)" by (cases "flw_Close e v f")
    then have f1: "flwTable f1 = flwTable f" and l: "lerr = follower_Close e v"
      by (auto simp: flw_Close_def flwTable_def)
    show ?thesis
    proof (cases lerr)
      case None
      with Some c Cons.prems have "closeFollowers e ks (Some a) f1 = (err', f')" by simp
      from Cons.IH[OF this] f1 l None Some show ?thesis by simp
    next
      case (Some x)
      with \<open>flwTable f k = Some v\<close> c Cons.prems
      have run': "closeFollowers e ks (Some (a @ withSep x)) f1 = (err', f')"
        by (simp add: appendErr_Some)
      from l Some have cl: "follower_Close e v = Some x" by simp
      from Cons.IH[OF run'] f1 cl \<open>flwTable f k = Some v\<close> show ?thesis by simp
    qed
  qed
qed

lemma closeFollowers_err_None:
  "closeFollowers e ks None f = (err', f') \<Longrightarrow> err' = joinErrs (closeErrs e (flwTable f) ks)"
proof (induction ks arbitrary: f)
  case Nil
  then show ?case by simp
next
  case (Cons k ks)
  show ?case
  proof (cases "flwTable f k")
    case None
    with Cons show ?thesis by simp
  next
    case (Some v)
    obtain lerr f1 where c: "flw_Close e v f = (lerr, f1)" by (cases "flw_Close e v f")
    then have f1: "flwTable f1 = flwTable f" and l: "lerr = follower_Close e v"
      by (auto simp: flw_Close_def flwTable_def)
    show ?thesis
    proof (cases lerr)
      case None
      with Some c Cons.prems have "closeFollowers e ks None f1 = (err', f')" by simp
      from Cons.IH[OF this] f1 l None Some show ?thesis by simp
    next
      case (Some x)
      with \<open>flwTable f k = Some v\<close> c Cons.prems
      have run': "closeFollowers e ks (Some x) f1 = (err', f')"
        by (simp add: appendErr_def)
      from l Some have cl: "follower_Close e v = Some x" by simp
      from closeFollowers_err_Some[OF run'] f1 cl \<open>flwTable f k = Some v\<close>
      show ?thesis by simp
    qed
  qed
qed

lemma closeErrs_complete:
  "k \<in> set ks \<Longrightarrow> m k = Some r \<Longrightarrow> follower_Close e r = Some msg \<Longrightarrow>
     msg \<in> set (closeErrs e m ks)"
  by (induction ks) (auto split: option.splits)

text \<open>
  C6 as stated (Close closes every follower and returns the merged error of the closes
  that fail, none discarded) fails when the snapshot cannot be written: with both
  followers of the second scene failing to close and the seek of the state file
  failing, Close returns the seek error alone.
\<close>

theorem Close_discards_on_dump_failure:
  "closeErrs env_seekfail (flwTable fm2) [key_a, key_ga] = [''close 0 failed'', ''close 1 failed'']
   \<and> joinErrs (closeErrs env_seekfail (flwTable fm2) [key_a, key_ga])
       = Some ''close 0 failed : close 1 failed''
   \<and> fst (Close env_seekfail [key_a, key_ga] fm2) = Some ''seek failed''"
  by (simp add: Close_def dumpStates_def stateFout_Close_def appendErr_def withSep_def
      prims scene scene2 env_seekfail_def)

text \<open>
  C6, amended: Close calls Close on every active follower, whether or not an earlier
  one failed, and merges the failures, in the order of the range, into one error that
  holds the message of each.  Close returns this merged error when writing the snapshot
  and closing the store handle both succeed; when one of them fails, Close returns
  that failure instead.  The range \<open>ks\<close> lists each key of the follower table once.
\<close>

theorem Close_merges_errors:
  assumes ks: "distinct ks" "set ks = dom (flwTable fm)"
      and run: "Close e ks fm = (res, fm')"
  shows "(\<forall>k r. flwTable fm k = Some r \<longrightarrow> closeCalls (flws fm r) < closeCalls (flws fm' r))
       \<and> (\<forall>k r msg. flwTable fm k = Some r \<and> follower_Close e r = Some msg \<longrightarrow>
             msg \<in> set (closeErrs e (flwTable fm) ks))
       \<and> (dumpStates e fm = None \<and> stateFout_Close e (stateFout fm) = None \<longrightarrow>
             res = joinErrs (closeErrs e (flwTable fm) ks))
       \<and> (\<forall>d. dumpStates e fm = Some d \<longrightarrow> res = Some d)
       \<and> (\<forall>c. dumpStates e fm = None \<and> stateFout_Close e (stateFout fm) = Some c \<longrightarrow>
             res = Some c)"
proof -
  obtain err f1 where cf: "closeFollowers e ks None fm = (err, f1)"
    by (cases "closeFollowers e ks None fm")
  note fr = closeFollowers_frame[OF cf]
  let ?f2 = "f1\<lparr>followers := None, filters := []\<rparr>"
  have d: "dumpStates e ?f2 = dumpStates e fm" and s: "stateFout ?f2 = stateFout fm"
    using fr by (simp_all add: dumpStates_def)
  have err: "err = joinErrs (closeErrs e (flwTable fm) ks)"
    by (rule closeFollowers_err_None[OF cf])
  have calls: "closeCalls (flws fm' r) = closeCalls (flws f1 r)" for r
    using run cf by (auto simp: Close_def Let_def split: option.splits)
  have res: "res = (case dumpStates e fm of Some derr \<Rightarrow> Some derr
                 | None \<Rightarrow> (case stateFout_Close e (stateFout fm) of Some cerr \<Rightarrow> Some cerr
                           | None \<Rightarrow> err))"
  proof (cases "dumpStates e fm")
    case (Some derr)
    with d have "dumpStates e ?f2 = Some derr" by simp
    with run cf have "res = Some derr" by (simp add: Close_def Let_def)
    with Some show ?thesis by simp
  next
    case None
    with d have dn: "dumpStates e ?f2 = None" by simp
    show ?thesis
    proof (cases "stateFout_Close e (stateFout fm)")
      case (Some cerr)
      with s have "stateFout_Close e (stateFout ?f2) = Some cerr" by simp
      with run cf dn have "res = Some cerr" by (simp add: Close_def Let_def)
      with None Some show ?thesis by simp
    next
      case cn: None
      with s have "stateFout_Close e (stateFout ?f2) = None" by simp
      with run cf dn have "res = err" by (simp add: Close_def Let_def)
      with None cn show ?thesis by simp
    qed
  qed
  have 1: "\<forall>k r. flwTable fm k = Some r \<longrightarrow> closeCalls (flws fm r) < closeCalls (flws fm' r)"
  proof (intro allI impI)
    fix k r assume kr: "flwTable fm k = Some r"
    with ks have "k \<in> set ks" by auto
    with kr have "filter (\<lambda>k. flwTable fm k = Some r) ks \<noteq> []"
      by (auto simp: filter_empty_conv)
    then have "0 < length (filter (\<lambda>k. flwTable fm k = Some r) ks)" by simp
    with closeFollowers_calls[OF cf, of r] calls[of r]
    show "closeCalls (flws fm r) < closeCalls (flws fm' r)" by simp
  qed
  have 2: "\<forall>k r msg. flwTable fm k = Some r \<and> follower_Close e r = Some msg \<longrightarrow>
             msg \<in> set (closeErrs e (flwTable fm) ks)"
    using ks closeErrs_complete by (metis domI)
  from 1 2 res err show ?thesis by simp
qed

theorem Close_merges_errors_witness:
  "fst (Close env_closefail [key_a, key_ga] fm2) = Some ''close 0 failed : close 1 failed''
   \<and> closeCalls (flws fm2 0) < closeCalls (flws (snd (Close env_closefail [key_a, key_ga] fm2)) 0)
   \<and> closeCalls (flws fm2 1) < closeCalls (flws (snd (Close env_closefail [key_a, key_ga] fm2)) 1)"
proof -
  have ks: "distinct [key_a, key_ga]" "set [key_a, key_ga] = dom (flwTable fm2)"
    by (auto simp: prims scene scene2)
  note t = Close_merges_errors[OF ks surjective_pairing, of env_closefail]
  have d: "dumpStates env_closefail fm2 = None"
    "stateFout_Close env_closefail (stateFout fm2) = None"
    by (simp_all add: dumpStates_def stateFout_Close_def scene scene2)
  have j: "joinErrs (closeErrs env_closefail (flwTable fm2) [key_a, key_ga])
             = Some ''close 0 failed : close 1 failed''"
    by (simp add: withSep_def prims scene scene2)
  have r: "flwTable fm2 key_a = Some 0" "flwTable fm2 key_ga = Some 1"
    by (simp_all add: prims scene scene2)
  from t d j have "fst (Close env_closefail [key_a, key_ga] fm2)
      = Some ''close 0 failed : close 1 failed''"
    by simp
  moreover from t r
  have "closeCalls (flws fm2 0) < closeCalls (flws (snd (Close env_closefail [key_a, key_ga] fm2)) 0)"
    "closeCalls (flws fm2 1) < closeCalls (flws (snd (Close env_closefail [key_a, key_ga] fm2)) 1)"
    by blast+
  ultimately show ?thesis by blast
qed


section \<open>State sanitation\<close>

text \<open>Keys outside the range keep their entry; a cell no key of the range holds keeps its value.\<close>

lemma cleanStates_frame:
  "cleanStates e ks st cs = (res, st', cs') \<Longrightarrow>
     (k \<notin> set ks \<longrightarrow> st' k = st k)
     \<and> ((\<forall>k'\<in>set ks. st k' \<noteq> Some (Some c)) \<longrightarrow> cs' c = cs c)"
proof (induction ks arbitrary: st cs)
  case Nil
  then show ?case by simp
next
  case (Cons a ks)
  show ?case
  proof (cases "st a")
    case None
    with Cons.prems have "cleanStates e ks st cs = (res, st', cs')" by simp
    from Cons.IH[OF this] show ?thesis by simp
  next
    case (Some v)
    show ?thesis
    proof (cases "os_Stat e (FilePath a)")
      case NotExist
      with Some Cons.prems have "cleanStates e ks (st(a := None)) cs = (res, st', cs')" by simp
      from Cons.IH[OF this] show ?thesis by (auto split: if_splits)
    next
      case (StatErr err)
      with Some Cons.prems show ?thesis by simp
    next
      case (Size n)
      show ?thesis
      proof (cases v)
        case None
        with Some Size Cons.prems have "cleanStates e ks st cs = (res, st', cs')" by simp
        from Cons.IH[OF this] show ?thesis by simp
      next
        case (Some c0)
        show ?thesis
        proof (cases "n < cs c0")
          case True
          with Some Size \<open>st a = Some v\<close> Cons.prems
          have "cleanStates e ks st (cs(c0 := 0)) = (res, st', cs')" by simp
          from Cons.IH[OF this] Some \<open>st a = Some v\<close> show ?thesis by auto
        next
          case False
          with Some Size \<open>st a = Some v\<close> Cons.prems
          have "cleanStates e ks st cs = (res, st', cs')" by simp
          from Cons.IH[OF this] show ?thesis by simp
        qed
      qed
    qed
  qed
qed

lemma cleanStates_entries:
  "cleanStates e ks st cs = (res, st', cs') \<Longrightarrow> distinct ks \<Longrightarrow> cellsDistinct st \<Longrightarrow>
   k \<in> set ks \<Longrightarrow> st k = Some v \<Longrightarrow>
     (os_Stat e (FilePath k) = NotExist \<longrightarrow> res = Ok \<longrightarrow> st' k = None)
     \<and> (\<forall>n. os_Stat e (FilePath k) = Size n \<longrightarrow>
           st' k = Some v
           \<and> (\<forall>c. v = Some c \<longrightarrow>
                 (n < cs c \<longrightarrow> res = Ok \<longrightarrow> cs' c = 0) \<and> (\<not> n < cs c \<longrightarrow> cs' c = cs c)))
     \<and> (\<forall>err. os_Stat e (FilePath k) = StatErr err \<longrightarrow>
           st' k = Some v \<and> (\<forall>c. v = Some c \<longrightarrow> cs' c = cs c) \<and> res \<noteq> Ok)"
proof (induction ks arbitrary: st cs)
  case Nil
  then show ?case by simp
next
  case (Cons a ks)
  from Cons.prems have dist: "distinct ks" "a \<notin> set ks" by auto
  note inj = Cons.prems(3)
  have other: "\<forall>k'\<in>set ks. st k' \<noteq> Some (Some c)" if "st a = Some (Some c)" for c
    using that inj dist(2) unfolding cellsDistinct_def by metis
  show ?case
  proof (cases "k = a")
    case True
    note ka = True
    show ?thesis
    proof (cases "os_Stat e (FilePath a)")
      case NotExist
      with Cons.prems ka have run: "cleanStates e ks (st(a := None)) cs = (res, st', cs')" by simp
      from cleanStates_frame[OF run, of a] dist have "st' a = None" by simp
      with NotExist ka show ?thesis by simp
    next
      case (StatErr err)
      with Cons.prems ka show ?thesis by auto
    next
      case (Size n)
      show ?thesis
      proof (cases v)
        case None
        with Size Cons.prems ka have run: "cleanStates e ks st cs = (res, st', cs')" by simp
        from cleanStates_frame[OF run, of a] dist have "st' a = st a" by simp
        with Size ka None Cons.prems show ?thesis by simp
      next
        case (Some c0)
        with Cons.prems ka have sa: "st a = Some (Some c0)" by simp
        show ?thesis
        proof (cases "n < cs c0")
          case True
          with Size sa Cons.prems
          have run: "cleanStates e ks st (cs(c0 := 0)) = (res, st', cs')" by simp
          from cleanStates_frame[OF run, of a c0] dist other[OF sa]
          have "st' a = st a" "cs' c0 = 0" by simp_all
          with Size ka Some sa True show ?thesis by simp
        next
          case False
          with Size sa Cons.prems have run: "cleanStates e ks st cs = (res, st', cs')" by simp
          from cleanStates_frame[OF run, of a c0] dist other[OF sa]
          have "st' a = st a" "cs' c0 = cs c0" by simp_all
          with Size ka Some sa False show ?thesis by simp
        qed
      qed
    qed
  next
    case False
    with Cons.prems have kin: "k \<in> set ks" by simp
    show ?thesis
    proof (cases "st a")
      case None
      with Cons.prems have run: "cleanStates e ks st cs = (res, st', cs')" by simp
      from Cons.IH[OF run dist(1) inj kin Cons.prems(5)] show ?thesis .
    next
      case (Some va)
      show ?thesis
      proof (cases "os_Stat e (FilePath a)")
        case NotExist
        with Some Cons.prems
        have run: "cleanStates e ks (st(a := None)) cs = (res, st', cs')" by simp
        have inj': "cellsDistinct (st(a := None))"
          using inj unfolding cellsDistinct_def by (auto split: if_splits)
        from False Cons.prems(5) have "(st(a := None)) k = Some v" by simp
        from Cons.IH[OF run dist(1) inj' kin this] show ?thesis .
      next
        case (StatErr err)
        with Some Cons.prems show ?thesis by auto
      next
        case (Size n)
        show ?thesis
        proof (cases va)
          case None
          with Some Size Cons.prems have run: "cleanStates e ks st cs = (res, st', cs')" by simp
          from Cons.IH[OF run dist(1) inj kin Cons.prems(5)] show ?thesis .
        next
          case (Some c0)
          with \<open>st a = Some va\<close> have sa: "st a = Some (Some c0)" by simp
          show ?thesis
          proof (cases "n < cs c0")
            case True
            with Size sa Cons.prems
            have run: "cleanStates e ks st (cs(c0 := 0)) = (res, st', cs')" by simp
            have ne: "v \<noteq> Some c0" using other[OF sa] kin Cons.prems(5) by auto
            from Cons.IH[OF run dist(1) inj kin Cons.prems(5)] ne show ?thesis by auto
          next
            case False
            with Size sa Cons.prems have run: "cleanStates e ks st cs = (res, st', cs')" by simp
            from Cons.IH[OF run dist(1) inj kin Cons.prems(5)] show ?thesis .
          qed
        qed
      qed
    qed
  qed
qed

text \<open>When no entry's stat fails otherwise than by a missing file, the call returns nil.\<close>

lemma cleanStates_Ok:
  "\<forall>k\<in>set ks. st k \<noteq> None \<longrightarrow> (\<forall>err. os_Stat e (FilePath k) \<noteq> StatErr err) \<Longrightarrow>
     fst (cleanStates e ks st cs) = Ok"
proof (induction ks arbitrary: st cs)
  case Nil
  then show ?case by simp
next
  case (Cons a ks)
  show ?case
  proof (cases "st a")
    case None
    with Cons show ?thesis by simp
  next
    case (Some v)
    with Cons.prems have ns: "\<forall>err. os_Stat e (FilePath a) \<noteq> StatErr err" by simp
    show ?thesis
    proof (cases "os_Stat e (FilePath a)")
      case NotExist
      have "fst (cleanStates e ks (st(a := None)) cs) = Ok"
        by (rule Cons.IH) (use Cons.prems in auto)
      with Some NotExist show ?thesis by simp
    next
      case (StatErr err)
      with ns show ?thesis by simp
    next
      case (Size n)
      have r: "fst (cleanStates e ks st cs') = Ok" for cs'
        by (rule Cons.IH) (use Cons.prems in auto)
      with Some Size show ?thesis by (cases v) auto
    qed
  qed
qed

text \<open>
  What cleanStates has done to each entry when it returns, in a range that lists each
  key of the map once and with a cell of its own for each key: removal of the entries
  whose file is missing and reset of the offsets beyond the file's size when it
  returns nil, which it does unless the stat of some entry fails otherwise; an entry
  whose file is at least as large as its offset, or whose stat fails in that other way,
  keeps its cell and value in every outcome.  No key is added.
\<close>

lemma cleanStates_sanitizes:
  assumes ks: "distinct ks" "set ks = dom st"
      and cells: "cellsDistinct st"
      and run: "cleanStates e ks st cs = (res, st', cs')"
  shows "(\<forall>k v. st k = Some v \<longrightarrow>
            (os_Stat e (FilePath k) = NotExist \<longrightarrow> res = Ok \<longrightarrow> st' k = None)
            \<and> (\<forall>n. os_Stat e (FilePath k) = Size n \<longrightarrow>
                  st' k = Some v
                  \<and> (\<forall>c. v = Some c \<longrightarrow>
                        (n < cs c \<longrightarrow> res = Ok \<longrightarrow> cs' c = 0)
                        \<and> (\<not> n < cs c \<longrightarrow> cs' c = cs c)))
            \<and> (\<forall>err. os_Stat e (FilePath k) = StatErr err \<longrightarrow>
                  st' k = Some v \<and> (\<forall>c. v = Some c \<longrightarrow> cs' c = cs c) \<and> res \<noteq> Ok))
       \<and> (\<forall>k. st k = None \<longrightarrow> st' k = None)
       \<and> ((\<forall>k v err. st k = Some v \<longrightarrow> os_Stat e (FilePath k) \<noteq> StatErr err) \<longrightarrow> res = Ok)"
proof -
  have "st' k = None" if "st k = None" for k
  proof -
    from that ks have "k \<notin> set ks" by auto
    with cleanStates_frame[OF run, of k] that show ?thesis by simp
  qed
  moreover have "(os_Stat e (FilePath k) = NotExist \<longrightarrow> res = Ok \<longrightarrow> st' k = None)
            \<and> (\<forall>n. os_Stat e (FilePath k) = Size n \<longrightarrow>
                  st' k = Some v
                  \<and> (\<forall>c. v = Some c \<longrightarrow>
                        (n < cs c \<longrightarrow> res = Ok \<longrightarrow> cs' c = 0)
                        \<and> (\<not> n < cs c \<longrightarrow> cs' c = cs c)))
            \<and> (\<forall>err. os_Stat e (FilePath k) = StatErr err \<longrightarrow>
                  st' k = Some v \<and> (\<forall>c. v = Some c \<longrightarrow> cs' c = cs c) \<and> res \<noteq> Ok)"
    if "st k = Some v" for k v
  proof -
    from that ks have "k \<in> set ks" by auto
    from cleanStates_entries[OF run ks(1) cells this that] show ?thesis .
  qed
  moreover have "res = Ok"
    if a: "\<forall>k v err. st k = Some v \<longrightarrow> os_Stat e (FilePath k) \<noteq> StatErr err"
  proof -
    from a have "\<forall>k\<in>set ks. st k \<noteq> None \<longrightarrow> (\<forall>err. os_Stat e (FilePath k) \<noteq> StatErr err)"
      by auto
    from cleanStates_Ok[OF this, of cs] run show ?thesis by simp
  qed
  ultimately show ?thesis by blast
qed

section \<open>Sanitation at construction\<close>

text \<open>Loading gives every entry a cell below the next free one, and no two keys the same cell.\<close>

lemma loadEntries_distinct:
  "loadEntries es st cs n = (st', cs', n') \<Longrightarrow> cellsDistinct st \<Longrightarrow>
   \<forall>k c. st k = Some (Some c) \<longrightarrow> c < n \<Longrightarrow>
     cellsDistinct st' \<and> (\<forall>k c. st' k = Some (Some c) \<longrightarrow> c < n')"
proof (induction es arbitrary: st cs n)
  case Nil
  then show ?case by simp
next
  case (Cons a es)
  obtain k off where a: "a = (k, off)" by (cases a)
  with Cons.prems(1) have run: "loadEntries es (st(k \<mapsto> Some n)) (cs(n := off)) (Suc n) = (st', cs', n')"
    by simp
  have d: "cellsDistinct (st(k \<mapsto> Some n))"
    using Cons.prems(2,3) unfolding cellsDistinct_def by (auto split: if_splits)
  have b: "\<forall>k' c. (st(k \<mapsto> Some n)) k' = Some (Some c) \<longrightarrow> c < Suc n"
    using Cons.prems(3) by (auto simp: less_Suc_eq)
  from Cons.IH[OF run d b] show ?case .
qed

lemma initStateFile_distinct:
  assumes "initStateFile e p = (fout, st, cs, nc, err)"
  shows "cellsDistinct st"
proof -
  have e: "cellsDistinct Map.empty" by (simp add: cellsDistinct_def)
  from assms have "st = Map.empty \<or> (\<exists>es. loadEntries es Map.empty (\<lambda>c. 0) 0 = (st, cs, nc))"
    by (auto simp: initStateFile_def split: stat_result.splits sum.splits if_splits prod.splits)
  then show ?thesis
  proof
    assume "st = Map.empty"
    with e show ?thesis by simp
  next
    assume "\<exists>es. loadEntries es Map.empty (\<lambda>c. 0) 0 = (st, cs, nc)"
    then obtain es where "loadEntries es Map.empty (\<lambda>c. 0) 0 = (st, cs, nc)" ..
    from loadEntries_distinct[OF this e] show ?thesis by simp
  qed
qed

text \<open>
  C7 (state sanitation at construction, for every loaded key: the entry is removed
  when the file no longer exists; the offset is reset to 0 when the file exists and
  is smaller than the offset; otherwise entry and offset are unchanged).  Here \<open>st\<close>
  and \<open>cs\<close> are the map and the cells that initStateFile loads, and the range \<open>ks\<close>
  lists each loaded key once.  In every manager that construction returns, the entry
  of a loaded key is gone when its file is missing, and otherwise holds its cell,
  with the value 0 when the file is smaller than the loaded offset and the loaded
  offset when it is not; no key is added.  Construction returns a manager exactly
  when no stat of a loaded key's file fails otherwise than by a missing file.
\<close>

theorem NewFilterManager_sanitizes:
  assumes init: "initStateFile e p = (fout, st, cs, nc, None)"
      and ks: "distinct ks" "set ks = dom st"
      and run: "NewFilterManager e ks p = (res, r)"
  shows "(\<forall>fm. r = Some fm \<longrightarrow>
            (\<forall>k v. st k = Some v \<longrightarrow>
               (os_Stat e (FilePath k) = NotExist \<longrightarrow> states fm k = None)
               \<and> (\<forall>n. os_Stat e (FilePath k) = Size n \<longrightarrow>
                     states fm k = Some v
                     \<and> (\<forall>c. v = Some c \<longrightarrow>
                           (n < cs c \<longrightarrow> cells fm c = 0)
                           \<and> (\<not> n < cs c \<longrightarrow> cells fm c = cs c)))
               \<and> (\<forall>err. os_Stat e (FilePath k) \<noteq> StatErr err))
            \<and> (\<forall>k. st k = None \<longrightarrow> states fm k = None))
       \<and> ((\<forall>k v err. st k = Some v \<longrightarrow> os_Stat e (FilePath k) \<noteq> StatErr err) \<longrightarrow>
            res = Ok \<and> r \<noteq> None)"
proof -
  obtain cres st' cs' where c: "cleanStates e ks st cs = (cres, st', cs')"
    by (cases "cleanStates e ks st cs")
  note d = initStateFile_distinct[OF init]
  note t = cleanStates_sanitizes[OF ks d c]
  have fm: "cres = Ok \<and> states fm = st' \<and> cells fm = cs'" if "r = Some fm" for fm
    using run init c that by (cases cres) (auto simp: NewFilterManager_def)
  have ok: "res = Ok \<and> r \<noteq> None" if "cres = Ok"
    using run init c that by (auto simp: NewFilterManager_def)
  from t fm ok show ?thesis by (auto; blast)
qed

theorem NewFilterManager_sanitizes_witness:
  "(case NewFilterManager env0 [key_a, key_b, key_gone] ''/var/state'' of
      (res, r) \<Rightarrow>
        res = Ok \<and> r \<noteq> None
        \<and> states (the r) key_gone = None
        \<and> states (the r) key_a = Some (Some 0) \<and> cells (the r) 0 = 0
        \<and> states (the r) key_b = Some (Some 1) \<and> cells (the r) 1 = 4096)"
proof -
  let ?st = "[key_a \<mapsto> Some 0, key_b \<mapsto> Some 1, key_gone \<mapsto> Some 2]"
  let ?cs = "(\<lambda>c. 0)(0 := 4096, Suc 0 := 4096, Suc (Suc 0) := 4096)"
  let ?n = "NewFilterManager env0 [key_a, key_b, key_gone] ''/var/state''"
  have init: "initStateFile env0 ''/var/state'' = (Some 7, ?st, ?cs, 3, None)"
    by (simp add: initStateFile_def scene key_gone_def numeral_3_eq_3 numeral_2_eq_2)
  have ks: "distinct [key_a, key_b, key_gone]" "set [key_a, key_b, key_gone] = dom ?st"
    by (auto simp: scene key_gone_def)
  note t = NewFilterManager_sanitizes[OF init ks surjective_pairing]
  have nostaterr: "\<forall>k v err. ?st k = Some v \<longrightarrow> os_Stat env0 (FilePath k) \<noteq> StatErr err"
    by (auto simp: scene key_gone_def)
  with t have ok: "fst ?n = Ok \<and> snd ?n \<noteq> None" by blast
  then obtain fm where fm: "snd ?n = Some fm" by auto
  have e: "?st key_gone = Some (Some 2)" "?st key_a = Some (Some 0)" "?st key_b = Some (Some 1)"
    by (simp_all add: scene key_gone_def)
  have s: "os_Stat env0 (FilePath key_gone) = NotExist"
    "os_Stat env0 (FilePath key_a) = Size 100"
    "os_Stat env0 (FilePath key_b) = Size 5000"
    by (simp_all add: scene key_gone_def)
  have v: "(100::int) < ?cs 0" "\<not> (5000::int) < ?cs 1" "?cs 1 = 4096" by simp_all
  from t fm e(1) s(1) have 1: "states fm key_gone = None" by blast
  from t fm e(2) s(2) v(1) have 2: "states fm key_a = Some (Some 0) \<and> cells fm 0 = 0" by blast
  from t fm e(3) s(3) v(2) have "states fm key_b = Some (Some 1) \<and> cells fm 1 = ?cs 1" by blast
  with v(3) have 3: "states fm key_b = Some (Some 1) \<and> cells fm 1 = 4096" by simp
  from ok fm 1 2 3 show ?thesis by (simp add: case_prod_unfold)
qed

section \<open>Migration on an explicit rename\<close>







end
